theory Spec2Isabelle
  imports Main "HOL-Library.AList"
begin

section \<open>React-Navigation V5 routing instrumentation\<close>

text \<open>
  A shallow embedding of \<^verbatim>\<open>src/js/tracing/reactnavigationv5.ts\<close>. The instance fields of
  \<^verbatim>\<open>ReactNavigationV5Instrumentation\<close> form the record \<open>instrumentation\<close>; everything the
  class reaches outside itself (the transaction objects of the tracing runtime, the timers
  of the host, the listeners of the navigation container, the global registration flag and
  the logger) forms the record \<open>world\<close>. Every method takes both and returns both.
\<close>

subsection \<open>Values, routes and transaction contexts\<close>

text \<open>
  JavaScript values as far as the file builds them: \<^verbatim>\<open>null\<close>, booleans, strings and object
  literals. An object is an association list in property order; the spread
  \<^verbatim>\<open>{...o, k: v}\<close> is \<open>AList.update k v o\<close> (an existing property keeps its place, a new
  one goes last).
\<close>

datatype jsval = JNull | JBool bool | JStr string | JObj "(string \<times> jsval) list"

type_synonym jsobject = "(string \<times> jsval) list"

text \<open>\<^verbatim>\<open>NavigationRouteV5\<close>: \<^verbatim>\<open>name\<close>, \<^verbatim>\<open>key\<close> and the optional \<^verbatim>\<open>params\<close>.\<close>

record NavigationRouteV5 =
  route_name :: string
  route_key :: string
  route_params :: "jsobject option"

text \<open>
  A transaction context: the fields the file reads or writes (\<^verbatim>\<open>name\<close>, \<^verbatim>\<open>op\<close>, \<^verbatim>\<open>tags\<close>,
  \<^verbatim>\<open>data\<close>, \<^verbatim>\<open>sampled\<close>) and, in \<open>ctx_rest\<close>, every other property the object carries.
  \<^verbatim>\<open>sampled\<close> is optional: \<open>None\<close> is \<^verbatim>\<open>undefined\<close>.
\<close>

record TransactionContext =
  ctx_name :: string
  ctx_op :: "string option"
  ctx_tags :: "(string \<times> string) list"
  ctx_data :: jsobject
  ctx_sampled :: "bool option"
  ctx_rest :: jsobject

definition instrumentationName :: string where
  "instrumentationName = ''react-navigation-v5''"

definition BLANK_TRANSACTION_CONTEXT_V5 :: TransactionContext where
  "BLANK_TRANSACTION_CONTEXT_V5 =
     \<lparr> ctx_name = ''Route Change'',
       ctx_op = Some ''navigation'',
       ctx_tags = [(''routing.instrumentation'', instrumentationName)],
       ctx_data = [],
       ctx_sampled = None,
       ctx_rest = [] \<rparr>"

subsection \<open>The world outside the class\<close>

text \<open>
  A transaction object of the tracing runtime, held by reference (its index in
  \<open>transactions\<close>). \<open>txn_finished\<close> counts the calls of \<^verbatim>\<open>finish()\<close>.
\<close>

record Transaction =
  txn_context :: TransactionContext
  txn_finished :: nat

datatype handler = OnDispatch | OnStateChange

datatype log_level = LevelLog | LevelWarn | LevelError

datatype log_message =
    AlreadyRegistered
  | InvalidContainerRef
  | NotSetupYet
  | MissingContainerRef
  | BeforeNavigateReturnedNothing
  | WillNotSend string

text \<open>What the class does to its collaborators without leaving a mark in their state.\<close>

datatype effect =
    Logged log_level log_message
  | BeforeNavigateCalled TransactionContext

record world =
  transactions :: "Transaction list"
  timers :: "(nat \<times> nat) list"
  next_timer :: nat
  listeners :: "(nat \<times> string \<times> handler) list"
  sentry_rn_v5_registered :: bool
  trace :: "effect list"

text \<open>
  The instance: \<^verbatim>\<open>_navigationContainer\<close> (a reference to a container, or null),
  \<^verbatim>\<open>_latestRoute\<close>, \<^verbatim>\<open>_latestTransaction\<close>, \<^verbatim>\<open>_initialStateHandled\<close>,
  \<^verbatim>\<open>_stateChangeTimeout\<close> (a timer handle, or undefined), \<^verbatim>\<open>_recentRouteKeys\<close>,
  \<^verbatim>\<open>_options.routeChangeTimeoutMs\<close> and the inherited \<^verbatim>\<open>_beforeNavigate\<close>.
\<close>

record instrumentation =
  navigationContainer :: "nat option"
  latestRoute :: "NavigationRouteV5 option"
  latestTransaction :: "nat option"
  initialStateHandled :: bool
  stateChangeTimeout :: "nat option"
  recentRouteKeys :: "string list"
  routeChangeTimeoutMs :: nat
  beforeNavigate :: "(TransactionContext \<Rightarrow> TransactionContext option) option"

definition maxRecentRouteLen :: nat where
  "maxRecentRouteLen = 200"

definition defaultOptions_routeChangeTimeoutMs :: nat where
  "defaultOptions_routeChangeTimeoutMs = 1000"

text \<open>The state the constructor leaves, with the default options.\<close>

definition new_instrumentation :: instrumentation where
  "new_instrumentation =
     \<lparr> navigationContainer = None,
       latestRoute = None,
       latestTransaction = None,
       initialStateHandled = False,
       stateChangeTimeout = None,
       recentRouteKeys = [],
       routeChangeTimeoutMs = defaultOptions_routeChangeTimeoutMs,
       beforeNavigate = None \<rparr>"

definition new_world :: world where
  "new_world =
     \<lparr> transactions = [], timers = [], next_timer = 0, listeners = [],
       sentry_rn_v5_registered = False, trace = [] \<rparr>"

subsection \<open>Host and collaborator operations\<close>

definition logger :: "log_level \<Rightarrow> log_message \<Rightarrow> world \<Rightarrow> world" where
  "logger lvl msg w = w\<lparr>trace := trace w @ [Logged lvl msg]\<rparr>"

text \<open>
  \<^verbatim>\<open>setTimeout(cb, ms)\<close>: every timer of this file has the same callback,
  \<^verbatim>\<open>_discardLatestTransaction\<close> bound to the instance, so a live timer is its handle and
  its delay. \<^verbatim>\<open>clearTimeout(h)\<close> removes the timer with handle \<open>h\<close>, if it is live.
\<close>

definition setTimeout :: "nat \<Rightarrow> world \<Rightarrow> nat \<times> world" where
  "setTimeout ms w =
     (next_timer w,
      w\<lparr>timers := timers w @ [(next_timer w, ms)], next_timer := Suc (next_timer w)\<rparr>)"

definition clearTimeout :: "nat \<Rightarrow> world \<Rightarrow> world" where
  "clearTimeout h w = w\<lparr>timers := filter (\<lambda>p. fst p \<noteq> h) (timers w)\<rparr>"

definition addListener :: "nat \<Rightarrow> string \<Rightarrow> handler \<Rightarrow> world \<Rightarrow> world" where
  "addListener container type f w = w\<lparr>listeners := listeners w @ [(container, type, f)]\<rparr>"

text \<open>
  Modelled from the spec: \<^verbatim>\<open>onRouteWillChange\<close> of the base class
  \<^verbatim>\<open>RoutingInstrumentation\<close> (\<^verbatim>\<open>routingInstrumentation.ts\<close>), the transaction-creation
  collaborator \<^verbatim>\<open>create(context) -> TransactionHandle\<close>, invoked once per dispatch: it
  returns a new transaction seeded with the given context.
\<close>

definition onRouteWillChange :: "TransactionContext \<Rightarrow> world \<Rightarrow> nat \<times> world" where
  "onRouteWillChange context w =
     (length (transactions w),
      w\<lparr>transactions := transactions w @ [\<lparr>txn_context = context, txn_finished = 0\<rparr>]\<rparr>)"

text \<open>
  Modelled from the spec: the \<^verbatim>\<open>TransactionHandle\<close> of the tracing runtime
  (\<^verbatim>\<open>@sentry/types\<close>), with \<^verbatim>\<open>snapshotContext()\<close> (here \<^verbatim>\<open>toContext\<close>),
  \<^verbatim>\<open>updateWithContext(Context)\<close>, \<^verbatim>\<open>setSampled(bool)\<close> (here the assignment to
  \<^verbatim>\<open>sampled\<close>) and \<^verbatim>\<open>finish()\<close>. The sampling decision of a transaction is the
  \<^verbatim>\<open>sampled\<close> field of its context.
\<close>

definition toContext :: "nat \<Rightarrow> world \<Rightarrow> TransactionContext" where
  "toContext t w = txn_context (transactions w ! t)"

definition updateWithContext :: "nat \<Rightarrow> TransactionContext \<Rightarrow> world \<Rightarrow> world" where
  "updateWithContext t context w =
     w\<lparr>transactions := (transactions w)[t := (transactions w ! t)\<lparr>txn_context := context\<rparr>]\<rparr>"

definition set_sampled :: "nat \<Rightarrow> bool \<Rightarrow> world \<Rightarrow> world" where
  "set_sampled t b w =
     w\<lparr>transactions := (transactions w)
        [t := (transactions w ! t)\<lparr>txn_context := (txn_context (transactions w ! t))\<lparr>ctx_sampled := Some b\<rparr>\<rparr>]\<rparr>"

definition finish :: "nat \<Rightarrow> world \<Rightarrow> world" where
  "finish t w =
     w\<lparr>transactions := (transactions w)
        [t := (transactions w ! t)\<lparr>txn_finished := Suc (txn_finished (transactions w ! t))\<rparr>]\<rparr>"

subsection \<open>The methods of the class\<close>

text \<open>\<^verbatim>\<open>_pushRecentRouteKey\<close>: push, then keep the last \<open>maxRecentRouteLen\<close> keys.\<close>

definition pushRecentRouteKey :: "string \<Rightarrow> string list \<Rightarrow> string list" where
  "pushRecentRouteKey key keys =
     (let pushed = keys @ [key]
      in if length pushed > maxRecentRouteLen
         then drop (length pushed - maxRecentRouteLen) pushed
         else pushed)"

text \<open>\<^verbatim>\<open>_discardLatestTransaction\<close>.\<close>

definition discardLatestTransaction :: "instrumentation \<Rightarrow> world \<Rightarrow> instrumentation \<times> world" where
  "discardLatestTransaction c w =
     (case latestTransaction c of
        Some t \<Rightarrow> (c\<lparr>latestTransaction := None\<rparr>, finish t (set_sampled t False w))
      | None \<Rightarrow> (c, w))"

text \<open>\<^verbatim>\<open>_onDispatch\<close>.\<close>

definition onDispatch :: "instrumentation \<Rightarrow> world \<Rightarrow> instrumentation \<times> world" where
  "onDispatch c w =
     (case onRouteWillChange BLANK_TRANSACTION_CONTEXT_V5 w of (t, w1) \<Rightarrow>
      case setTimeout (routeChangeTimeoutMs c) w1 of (h, w2) \<Rightarrow>
        (c\<lparr>latestTransaction := Some t, stateChangeTimeout := Some h\<rparr>, w2))"

text \<open>
  The object literals of \<^verbatim>\<open>_onStateChange\<close>: \<^verbatim>\<open>data.route\<close>, \<^verbatim>\<open>data.previousRoute\<close>
  and \<^verbatim>\<open>updatedContext\<close>. \<^verbatim>\<open>params ?? {}\<close> is the empty object when \<^verbatim>\<open>params\<close> is absent.
\<close>

definition params_or_empty :: "jsobject option \<Rightarrow> jsobject" where
  "params_or_empty p = (case p of None \<Rightarrow> [] | Some ps \<Rightarrow> ps)"

definition route_data :: "NavigationRouteV5 \<Rightarrow> bool \<Rightarrow> jsval" where
  "route_data route routeHasBeenSeen =
     JObj [(''name'', JStr (route_name route)),
           (''key'', JStr (route_key route)),
           (''params'', JObj (params_or_empty (route_params route))),
           (''hasBeenSeen'', JBool routeHasBeenSeen)]"

definition previousRoute_data :: "NavigationRouteV5 option \<Rightarrow> jsval" where
  "previousRoute_data previousRoute =
     (case previousRoute of
        Some p \<Rightarrow>
          JObj [(''name'', JStr (route_name p)),
                (''key'', JStr (route_key p)),
                (''params'', JObj (params_or_empty (route_params p)))]
      | None \<Rightarrow> JNull)"

definition updatedContext ::
  "TransactionContext \<Rightarrow> NavigationRouteV5 \<Rightarrow> NavigationRouteV5 option \<Rightarrow> bool \<Rightarrow> TransactionContext"
where
  "updatedContext originalContext route previousRoute routeHasBeenSeen =
     originalContext
       \<lparr> ctx_name := route_name route,
         ctx_tags := AList.update ''routing.route.name'' (route_name route) (ctx_tags originalContext),
         ctx_data :=
           AList.update ''previousRoute'' (previousRoute_data previousRoute)
             (AList.update ''route'' (route_data route routeHasBeenSeen) (ctx_data originalContext)) \<rparr>"

text \<open>\<^verbatim>\<open>this._beforeNavigate?.(updatedContext)\<close>: undefined when no hook is set.\<close>

definition call_beforeNavigate ::
  "instrumentation \<Rightarrow> TransactionContext \<Rightarrow> world \<Rightarrow> TransactionContext option \<times> world"
where
  "call_beforeNavigate c context w =
     (case beforeNavigate c of
        None \<Rightarrow> (None, w)
      | Some hook \<Rightarrow> (hook context, w\<lparr>trace := trace w @ [BeforeNavigateCalled context]\<rparr>))"

text \<open>
  The body of the inner \<^verbatim>\<open>if\<close> of \<^verbatim>\<open>_onStateChange\<close> (lines 182 to 237), for the pending
  transaction \<open>t\<close>.
\<close>

definition decorate ::
  "nat \<Rightarrow> NavigationRouteV5 \<Rightarrow> NavigationRouteV5 option \<Rightarrow> instrumentation \<Rightarrow> world
     \<Rightarrow> instrumentation \<times> world"
where
  "decorate t route previousRoute c w =
     (let originalContext = toContext t w;
          routeHasBeenSeen = (route_key route \<in> set (recentRouteKeys c));
          updated = updatedContext originalContext route previousRoute routeHasBeenSeen
      in case call_beforeNavigate c updated w of (returned, w1) \<Rightarrow>
         case (case returned of
                 None \<Rightarrow> (updated\<lparr>ctx_sampled := Some False\<rparr>,
                          logger LevelError BeforeNavigateReturnedNothing w1)
               | Some context \<Rightarrow> (context, w1)) of (finalContext, w2) \<Rightarrow>
         case (if ctx_sampled finalContext = Some False
               then (c, logger LevelLog (WillNotSend (ctx_name finalContext)) w2)
               else (case stateChangeTimeout c of
                       Some h \<Rightarrow> (c\<lparr>stateChangeTimeout := None\<rparr>, clearTimeout h w2)
                     | None \<Rightarrow> (c, w2))) of (c3, w3) \<Rightarrow>
         (c3, updateWithContext t finalContext w3))"

text \<open>The guard of that \<^verbatim>\<open>if\<close>: \<^verbatim>\<open>!previousRoute || previousRoute.key !== route.key\<close>.\<close>

definition route_changed :: "NavigationRouteV5 option \<Rightarrow> NavigationRouteV5 \<Rightarrow> bool" where
  "route_changed previousRoute route =
     (case previousRoute of None \<Rightarrow> True | Some p \<Rightarrow> route_key p \<noteq> route_key route)"

text \<open>
  \<^verbatim>\<open>_onStateChange\<close>. Its first argument is what \<^verbatim>\<open>getCurrentRoute()\<close> of the container
  returns when the method asks (\<open>None\<close>: no route).
\<close>

definition onStateChange ::
  "NavigationRouteV5 option \<Rightarrow> instrumentation \<Rightarrow> world \<Rightarrow> instrumentation \<times> world"
where
  "onStateChange current c w =
     (let previousRoute = latestRoute c
      in case navigationContainer c of
           None \<Rightarrow> (c, logger LevelWarn MissingContainerRef w)
         | Some container \<Rightarrow>
             (case current of
                None \<Rightarrow> (c, w)
              | Some route \<Rightarrow>
                  (case (case latestTransaction c of
                           Some t \<Rightarrow>
                             if route_changed previousRoute route
                             then decorate t route previousRoute c w
                             else (c, w)
                         | None \<Rightarrow> (c, w)) of (c1, w1) \<Rightarrow>
                   (c1\<lparr>recentRouteKeys := pushRecentRouteKey (route_key route) (recentRouteKeys c1),
                       latestRoute := Some route\<rparr>, w1))))"

text \<open>
  \<^verbatim>\<open>registerNavigationContainer\<close>. The argument is typed \<^verbatim>\<open>any\<close>: a ref object with a
  \<^verbatim>\<open>current\<close> property (holding a container or nothing), a container itself, or a value
  that is no object, on which the operator \<^verbatim>\<open>in\<close> throws a TypeError. The second argument
  is what \<^verbatim>\<open>getCurrentRoute()\<close> returns if the nested \<^verbatim>\<open>_onStateChange\<close> asks.
\<close>

datatype container_ref = NotAnObject | RefObject "nat option" | Container nat

datatype js_error = TypeError

definition resolve_ref :: "container_ref \<Rightarrow> js_error + nat option" where
  "resolve_ref navigationContainerRef =
     (case navigationContainerRef of
        NotAnObject \<Rightarrow> Inl TypeError
      | RefObject current \<Rightarrow> Inr current
      | Container n \<Rightarrow> Inr (Some n))"

definition registerNavigationContainer ::
  "container_ref \<Rightarrow> NavigationRouteV5 option \<Rightarrow> instrumentation \<Rightarrow> world
     \<Rightarrow> js_error + instrumentation \<times> world"
where
  "registerNavigationContainer navigationContainerRef current c w =
     (if \<not> sentry_rn_v5_registered w then
        (case resolve_ref navigationContainerRef of
           Inl e \<Rightarrow> Inl e
         | Inr resolved \<Rightarrow>
             (let c1 = c\<lparr>navigationContainer := resolved\<rparr>
              in case navigationContainer c1 of
                   Some container \<Rightarrow>
                     (let w1 = addListener container ''__unsafe_action__'' OnDispatch w;
                          w2 = addListener container ''state'' OnStateChange w1
                      in case (if \<not> initialStateHandled c1 then
                                 (case latestTransaction c1 of
                                    Some t \<Rightarrow>
                                      (case onStateChange current c1 w2 of (c2, w3) \<Rightarrow>
                                         (c2\<lparr>initialStateHandled := True\<rparr>, w3))
                                  | None \<Rightarrow> (c1, logger LevelLog NotSetupYet w2))
                               else (c1, w2)) of (c4, w4) \<Rightarrow>
                         Inr (c4, w4\<lparr>sentry_rn_v5_registered := True\<rparr>))
                 | None \<Rightarrow> Inr (c1, logger LevelWarn InvalidContainerRef w)))
      else Inr (c, logger LevelLog AlreadyRegistered w))"

text \<open>
  \<^verbatim>\<open>registerRoutingInstrumentation\<close>. Modelled from the spec: the call of
  \<^verbatim>\<open>super.registerRoutingInstrumentation\<close> (\<^verbatim>\<open>routingInstrumentation.ts\<close>), which keeps
  the transaction creator and the decoration hook; the creator is \<open>onRouteWillChange\<close>
  above.
\<close>

definition registerRoutingInstrumentation ::
  "(TransactionContext \<Rightarrow> TransactionContext option) \<Rightarrow> NavigationRouteV5 option
     \<Rightarrow> instrumentation \<Rightarrow> world \<Rightarrow> instrumentation \<times> world"
where
  "registerRoutingInstrumentation hook current c w =
     (let c0 = c\<lparr>beforeNavigate := Some hook\<rparr>
      in if \<not> initialStateHandled c0 then
           (case onDispatch c0 w of (c1, w1) \<Rightarrow>
              (case navigationContainer c1 of
                 Some container \<Rightarrow>
                   (case onStateChange current c1 w1 of (c2, w2) \<Rightarrow>
                      (c2\<lparr>initialStateHandled := True\<rparr>, w2))
               | None \<Rightarrow> (c1, w1)))
         else (c0, w))"

subsection \<open>Events\<close>

text \<open>
  The three handlers run one at a time, in the order the host delivers the events: a
  dispatch, a state change (with the route the container then reports), or a live timer
  firing. A firing timer leaves the host's table and calls
  \<^verbatim>\<open>_discardLatestTransaction\<close>; a handle that is not live fires nothing.
\<close>

datatype event = Dispatch | StateChange "NavigationRouteV5 option" | TimerFires nat

definition timerFires :: "nat \<Rightarrow> instrumentation \<Rightarrow> world \<Rightarrow> instrumentation \<times> world" where
  "timerFires h c w =
     (if h \<in> set (map fst (timers w))
      then discardLatestTransaction c (clearTimeout h w)
      else (c, w))"

fun step :: "event \<Rightarrow> instrumentation \<times> world \<Rightarrow> instrumentation \<times> world" where
  "step Dispatch (c, w) = onDispatch c w"
| "step (StateChange current) (c, w) = onStateChange current c w"
| "step (TimerFires h) (c, w) = timerFires h c w"

fun run :: "event list \<Rightarrow> instrumentation \<times> world \<Rightarrow> instrumentation \<times> world" where
  "run [] s = s"
| "run (e # es) s = run es (step e s)"

text \<open>Recording a sequence of keys in the ledger, one \<^verbatim>\<open>_pushRecentRouteKey\<close> each.\<close>

fun recordRouteKeys :: "string list \<Rightarrow> string list \<Rightarrow> string list" where
  "recordRouteKeys [] keys = keys"
| "recordRouteKeys (k # ks) keys = recordRouteKeys ks (pushRecentRouteKey k keys)"

text \<open>
  The pending reference, when there is one, names a transaction the runtime has created.
\<close>

definition pending_valid :: "instrumentation \<times> world \<Rightarrow> bool" where
  "pending_valid s =
     (case latestTransaction (fst s) of
        None \<Rightarrow> True
      | Some t \<Rightarrow> t < length (transactions (snd s)))"

subsection \<open>Sample inputs\<close>

text \<open>
  Two routes, and an instance whose navigation container is registered and whose
  decoration hook returns the context it is given.
\<close>

definition route_A :: NavigationRouteV5 where
  "route_A = \<lparr>route_name = ''A'', route_key = ''k1'', route_params = None\<rparr>"

definition route_B :: NavigationRouteV5 where
  "route_B = \<lparr>route_name = ''B'', route_key = ''k2'', route_params = Some [(''id'', JStr ''7'')]\<rparr>"

definition ready_instrumentation :: instrumentation where
  "ready_instrumentation =
     new_instrumentation\<lparr>navigationContainer := Some 0, beforeNavigate := Some Some\<rparr>"

text \<open>The same instance with a hook that vetoes, and with a hook that returns nothing.\<close>

definition vetoing_instrumentation :: instrumentation where
  "vetoing_instrumentation =
     ready_instrumentation
       \<lparr>beforeNavigate := Some (\<lambda>context. Some (context\<lparr>ctx_sampled := Some False\<rparr>))\<rparr>"

definition silent_instrumentation :: instrumentation where
  "silent_instrumentation = ready_instrumentation\<lparr>beforeNavigate := Some (\<lambda>context. None)\<rparr>"

section \<open>Properties\<close>

subsection \<open>Discarding the pending transaction\<close>

text \<open>
  C8. With a pending transaction, \<^verbatim>\<open>_discardLatestTransaction\<close> sets its \<^verbatim>\<open>sampled\<close> to
  false, calls its \<^verbatim>\<open>finish\<close> once and forgets it, touching nothing else; with none
  pending it changes nothing. A second call right after any call changes nothing.
\<close>

theorem discard_finishes_unsampled_or_does_nothing:
  "(latestTransaction c = Some t \<and> t < length (transactions w) \<longrightarrow>
      (case discardLatestTransaction c w of (c', w') \<Rightarrow>
         c' = c\<lparr>latestTransaction := None\<rparr>
         \<and> latestTransaction c' = None
         \<and> ctx_sampled (txn_context (transactions w' ! t)) = Some False
         \<and> txn_finished (transactions w' ! t) = Suc (txn_finished (transactions w ! t))
         \<and> txn_context (transactions w' ! t)
             = (txn_context (transactions w ! t))\<lparr>ctx_sampled := Some False\<rparr>
         \<and> length (transactions w') = length (transactions w)
         \<and> (\<forall>i. i \<noteq> t \<longrightarrow> transactions w' ! i = transactions w ! i)
         \<and> w' = w\<lparr>transactions := transactions w'\<rparr>))
   \<and> (latestTransaction c = None \<longrightarrow> discardLatestTransaction c w = (c, w))
   \<and> (case discardLatestTransaction c w of (c', w') \<Rightarrow>
         discardLatestTransaction c' w' = (c', w'))"
  by (simp add: discardLatestTransaction_def set_sampled_def finish_def
      split: option.split)

theorem discard_finishes_unsampled_or_does_nothing_witness:
  "latestTransaction (new_instrumentation\<lparr>latestTransaction := Some 0\<rparr>) = Some 0
   \<and> 0 < length (transactions (snd (onDispatch new_instrumentation new_world)))
   \<and> latestTransaction (fst (discardLatestTransaction
        (new_instrumentation\<lparr>latestTransaction := Some 0\<rparr>)
        (snd (onDispatch new_instrumentation new_world)))) = None
   \<and> ctx_sampled (txn_context (transactions (snd (discardLatestTransaction
        (new_instrumentation\<lparr>latestTransaction := Some 0\<rparr>)
        (snd (onDispatch new_instrumentation new_world)))) ! 0)) = Some False
   \<and> txn_finished (transactions (snd (discardLatestTransaction
        (new_instrumentation\<lparr>latestTransaction := Some 0\<rparr>)
        (snd (onDispatch new_instrumentation new_world)))) ! 0) = 1
   \<and> discardLatestTransaction new_instrumentation new_world = (new_instrumentation, new_world)"
  using discard_finishes_unsampled_or_does_nothing
    [of "new_instrumentation\<lparr>latestTransaction := Some 0\<rparr>" 0
        "snd (onDispatch new_instrumentation new_world)"]
    discard_finishes_unsampled_or_does_nothing [of new_instrumentation 0 new_world]
  by (simp add: new_instrumentation_def new_world_def onDispatch_def onRouteWillChange_def
      setTimeout_def split_def)

subsection \<open>Dispatches in a row\<close>

lemma run_append: "run (es @ fs) s = run fs (run es s)"
  by (induction es arbitrary: s) simp_all

lemma run_replicate_Suc:
  "run (replicate (Suc n) e) s = step e (run (replicate n e) s)"
proof -
  have "replicate (Suc n) e = replicate n e @ [e]"
    by (simp add: replicate_append_same)
  then show ?thesis
    by (simp only: run_append run.simps)
qed

lemma onDispatch_fields:
  "latestTransaction (fst (onDispatch c w)) = Some (length (transactions w))"
  "stateChangeTimeout (fst (onDispatch c w)) = Some (next_timer w)"
  "transactions (snd (onDispatch c w))
     = transactions w @ [\<lparr>txn_context = BLANK_TRANSACTION_CONTEXT_V5, txn_finished = 0\<rparr>]"
  "timers (snd (onDispatch c w)) = timers w @ [(next_timer w, routeChangeTimeoutMs c)]"
  "trace (snd (onDispatch c w)) = trace w"
  "listeners (snd (onDispatch c w)) = listeners w"
  "sentry_rn_v5_registered (snd (onDispatch c w)) = sentry_rn_v5_registered w"
  by (simp_all add: onDispatch_def onRouteWillChange_def setTimeout_def)

lemma dispatches_transactions:
  "transactions (snd (run (replicate n Dispatch) (c, w)))
     = transactions w @ replicate n \<lparr>txn_context = BLANK_TRANSACTION_CONTEXT_V5, txn_finished = 0\<rparr>"
proof (induction n)
  case 0
  show ?case by simp
next
  case (Suc n)
  obtain c1 w1 where s: "run (replicate n Dispatch) (c, w) = (c1, w1)"
    by (cases "run (replicate n Dispatch) (c, w)")
  have last: "run (replicate (Suc n) Dispatch) (c, w) = onDispatch c1 w1"
    by (simp only: run_replicate_Suc s step.simps)
  from Suc s have "transactions w1 = transactions w
      @ replicate n \<lparr>txn_context = BLANK_TRANSACTION_CONTEXT_V5, txn_finished = 0\<rparr>"
    by simp
  then show ?case
    unfolding last by (simp add: onDispatch_fields replicate_append_same)
qed

lemma dispatches_trace:
  "trace (snd (run (replicate n Dispatch) (c, w))) = trace w"
proof (induction n)
  case 0
  show ?case by simp
next
  case (Suc n)
  obtain c1 w1 where s: "run (replicate n Dispatch) (c, w) = (c1, w1)"
    by (cases "run (replicate n Dispatch) (c, w)")
  have last: "run (replicate (Suc n) Dispatch) (c, w) = onDispatch c1 w1"
    by (simp only: run_replicate_Suc s step.simps)
  from Suc s show ?case
    unfolding last by (simp add: onDispatch_fields)
qed

lemma dispatches_latest:
  "latestTransaction (fst (run (replicate (Suc n) Dispatch) (c, w)))
     = Some (length (transactions w) + n)"
proof -
  obtain c1 w1 where s: "run (replicate n Dispatch) (c, w) = (c1, w1)"
    by (cases "run (replicate n Dispatch) (c, w)")
  have last: "run (replicate (Suc n) Dispatch) (c, w) = onDispatch c1 w1"
    by (simp only: run_replicate_Suc s step.simps)
  from s have "transactions w1 = transactions w
      @ replicate n \<lparr>txn_context = BLANK_TRANSACTION_CONTEXT_V5, txn_finished = 0\<rparr>"
    using dispatches_transactions [of n c w] by simp
  then show ?thesis
    unfolding last by (simp add: onDispatch_fields)
qed

text \<open>
  C2. After \<open>n \<ge> 1\<close> dispatches in a row the pending transaction is the one the last
  dispatch created, holding the blank template context. The dispatches only append new
  transactions: every transaction that was there before is as it was, every transaction
  the earlier dispatches created has no \<^verbatim>\<open>finish\<close> call and no \<^verbatim>\<open>sampled\<close> decision,
  and nothing is logged.
\<close>

theorem dispatches_leave_newest_pending:
  "0 < n \<Longrightarrow>
   (case run (replicate n Dispatch) (c, w) of (c', w') \<Rightarrow>
      latestTransaction c' = Some (length (transactions w) + n - 1)
      \<and> length (transactions w') = length (transactions w) + n
      \<and> transactions w' ! (length (transactions w) + n - 1)
          = \<lparr>txn_context = BLANK_TRANSACTION_CONTEXT_V5, txn_finished = 0\<rparr>
      \<and> transactions w'
          = transactions w
            @ replicate n \<lparr>txn_context = BLANK_TRANSACTION_CONTEXT_V5, txn_finished = 0\<rparr>
      \<and> (\<forall>i < length (transactions w). transactions w' ! i = transactions w ! i)
      \<and> (\<forall>i. length (transactions w) \<le> i \<and> i < length (transactions w')
            \<longrightarrow> txn_finished (transactions w' ! i) = 0
                \<and> ctx_sampled (txn_context (transactions w' ! i)) = None)
      \<and> trace w' = trace w)"
proof -
  assume "0 < n"
  then obtain m where n: "n = Suc m"
    by (cases n) simp_all
  obtain c' w' where s: "run (replicate n Dispatch) (c, w) = (c', w')"
    by (cases "run (replicate n Dispatch) (c, w)")
  have latest: "latestTransaction c' = Some (length (transactions w) + n - 1)"
    using dispatches_latest [of m c w] s by (simp add: n)
  have txns: "transactions w' = transactions w
      @ replicate n \<lparr>txn_context = BLANK_TRANSACTION_CONTEXT_V5, txn_finished = 0\<rparr>"
    using dispatches_transactions [of n c w] s by simp
  have tr: "trace w' = trace w"
    using dispatches_trace [of n c w] s by simp
  have blank: "ctx_sampled BLANK_TRANSACTION_CONTEXT_V5 = None"
    by (simp add: BLANK_TRANSACTION_CONTEXT_V5_def)
  have newest: "transactions w' ! (length (transactions w) + n - 1)
      = \<lparr>txn_context = BLANK_TRANSACTION_CONTEXT_V5, txn_finished = 0\<rparr>"
    using \<open>0 < n\<close> by (simp add: txns nth_append)
  have old: "\<forall>i < length (transactions w). transactions w' ! i = transactions w ! i"
    by (simp add: txns nth_append)
  have new: "\<forall>i. length (transactions w) \<le> i \<and> i < length (transactions w')
            \<longrightarrow> txn_finished (transactions w' ! i) = 0
                \<and> ctx_sampled (txn_context (transactions w' ! i)) = None"
    by (auto simp add: txns nth_append blank)
  have len: "length (transactions w') = length (transactions w) + n"
    by (simp add: txns)
  from latest len newest txns old new tr show ?thesis
    unfolding s by simp
qed

theorem dispatches_leave_newest_pending_witness:
  "(0::nat) < 3
   \<and> latestTransaction (fst (run (replicate 3 Dispatch) (new_instrumentation, new_world))) = Some 2
   \<and> transactions (snd (run (replicate 3 Dispatch) (new_instrumentation, new_world)))
       = replicate 3 \<lparr>txn_context = BLANK_TRANSACTION_CONTEXT_V5, txn_finished = 0\<rparr>
   \<and> trace (snd (run (replicate 3 Dispatch) (new_instrumentation, new_world))) = []"
  using dispatches_leave_newest_pending [where n = 3 and c = new_instrumentation and w = new_world]
  by (simp add: split_def new_world_def)

subsection \<open>State changes\<close>

lemma onStateChange_same_key:
  "navigationContainer c = Some n \<Longrightarrow> latestRoute c = Some p \<Longrightarrow> route_key p = route_key r \<Longrightarrow>
   onStateChange (Some r) c w =
     (c\<lparr>recentRouteKeys := pushRecentRouteKey (route_key r) (recentRouteKeys c),
        latestRoute := Some r\<rparr>, w)"
  by (simp add: onStateChange_def Let_def route_changed_def split: option.split)

lemma decorate_keeps_ledger:
  "recentRouteKeys (fst (decorate t r prev c w)) = recentRouteKeys c"
  by (simp add: decorate_def Let_def split_def split: option.split)

lemma onStateChange_records_route:
  "navigationContainer c = Some n \<Longrightarrow>
   recentRouteKeys (fst (onStateChange (Some r) c w))
     = pushRecentRouteKey (route_key r) (recentRouteKeys c)
   \<and> latestRoute (fst (onStateChange (Some r) c w)) = Some r"
  by (simp add: onStateChange_def Let_def split_def decorate_keeps_ledger split: option.split)

text \<open>
  C4. A state change whose route has the key of the latest route does not call the
  decoration hook and does not touch the pending transaction (the world stays as it is,
  its trace and its transactions included); it only records the key in the ledger and
  makes the route the latest route. Every state change that yields a route records the
  key and sets the latest route, whether it decorated the transaction or not.
\<close>

theorem same_key_skips_decoration_but_records_route:
  "navigationContainer c = Some n \<Longrightarrow>
   (latestRoute c = Some p \<and> route_key p = route_key r \<longrightarrow>
      onStateChange (Some r) c w =
        (c\<lparr>recentRouteKeys := pushRecentRouteKey (route_key r) (recentRouteKeys c),
           latestRoute := Some r\<rparr>, w)
      \<and> trace (snd (onStateChange (Some r) c w)) = trace w
      \<and> transactions (snd (onStateChange (Some r) c w)) = transactions w)
   \<and> recentRouteKeys (fst (onStateChange (Some r) c w))
       = pushRecentRouteKey (route_key r) (recentRouteKeys c)
   \<and> route_key r \<in> set (recentRouteKeys (fst (onStateChange (Some r) c w)))
   \<and> latestRoute (fst (onStateChange (Some r) c w)) = Some r"
proof -
  assume container: "navigationContainer c = Some n"
  have "route_key r \<in> set (pushRecentRouteKey (route_key r) (recentRouteKeys c))"
    by (simp add: pushRecentRouteKey_def Let_def maxRecentRouteLen_def)
  with onStateChange_records_route [OF container, of r w]
    onStateChange_same_key [OF container, of p r w]
  show ?thesis by simp
qed

lemmas handler_defs =
  onDispatch_def onRouteWillChange_def setTimeout_def clearTimeout_def logger_def
  onStateChange_def decorate_def call_beforeNavigate_def updatedContext_def route_changed_def
  toContext_def updateWithContext_def set_sampled_def finish_def
  discardLatestTransaction_def timerFires_def pushRecentRouteKey_def maxRecentRouteLen_def
  route_data_def previousRoute_data_def params_or_empty_def BLANK_TRANSACTION_CONTEXT_V5_def
  instrumentationName_def

lemmas sample_defs =
  new_instrumentation_def new_world_def ready_instrumentation_def route_A_def route_B_def
  vetoing_instrumentation_def silent_instrumentation_def
  defaultOptions_routeChangeTimeoutMs_def

theorem same_key_skips_decoration_but_records_route_witness:
  "navigationContainer
     (fst (run [Dispatch, StateChange (Some route_A), Dispatch] (ready_instrumentation, new_world)))
     = Some 0
   \<and> latestRoute
     (fst (run [Dispatch, StateChange (Some route_A), Dispatch] (ready_instrumentation, new_world)))
     = Some route_A
   \<and> snd (run [Dispatch, StateChange (Some route_A), Dispatch, StateChange (Some route_A)]
          (ready_instrumentation, new_world))
     = snd (run [Dispatch, StateChange (Some route_A), Dispatch] (ready_instrumentation, new_world))
   \<and> recentRouteKeys
     (fst (run [Dispatch, StateChange (Some route_A), Dispatch, StateChange (Some route_A)]
          (ready_instrumentation, new_world)))
     = [''k1'', ''k1'']"
proof -
  define s where
    "s = run [Dispatch, StateChange (Some route_A), Dispatch] (ready_instrumentation, new_world)"
  have container: "navigationContainer (fst s) = Some 0"
    by (simp add: s_def handler_defs sample_defs Let_def)
  have latest: "latestRoute (fst s) = Some route_A"
    by (simp add: s_def handler_defs sample_defs Let_def)
  have keys: "recentRouteKeys (fst s) = [''k1'']"
    by (simp add: s_def handler_defs sample_defs Let_def)
  have "run ([Dispatch, StateChange (Some route_A), Dispatch] @ [StateChange (Some route_A)])
      (ready_instrumentation, new_world) = run [StateChange (Some route_A)] s"
    unfolding s_def by (rule run_append)
  then have last: "run [Dispatch, StateChange (Some route_A), Dispatch, StateChange (Some route_A)]
      (ready_instrumentation, new_world) = onStateChange (Some route_A) (fst s) (snd s)"
    by (cases s) simp
  have push: "pushRecentRouteKey (route_key route_A) [''k1''] = [''k1'', ''k1'']"
    by (simp add: pushRecentRouteKey_def maxRecentRouteLen_def route_A_def)
  from same_key_skips_decoration_but_records_route
    [OF container, where p = route_A and r = route_A and w = "snd s"] latest
  have "onStateChange (Some route_A) (fst s) (snd s) =
      ((fst s)\<lparr>recentRouteKeys := pushRecentRouteKey (route_key route_A) (recentRouteKeys (fst s)),
           latestRoute := Some route_A\<rparr>, snd s)"
    by blast
  then have "snd (onStateChange (Some route_A) (fst s) (snd s)) = snd s"
    and "recentRouteKeys (fst (onStateChange (Some route_A) (fst s) (snd s))) = [''k1'', ''k1'']"
    by (simp_all add: keys push)
  with container latest show ?thesis
    unfolding last s_def [symmetric] by (intro conjI)
qed

subsection \<open>Timers\<close>

lemma onStateChange_clears_only_when_decorating:
  "timers (snd (onStateChange current c w)) \<noteq> timers w \<Longrightarrow>
   \<exists>t r. latestTransaction c = Some t \<and> current = Some r \<and> route_changed (latestRoute c) r"
  by (auto simp add: onStateChange_def Let_def logger_def split: option.splits if_splits)

text \<open>
  C10. A state change that reports the key of the latest route leaves the armed timer and
  its handle alone, whatever is pending; a state change changes the timers only where it
  decorates a pending transaction for a changed route. So when the timer of a pending
  transaction fires after such a state change, the transaction is still discarded:
  \<^verbatim>\<open>sampled\<close> is set to false and \<^verbatim>\<open>finish\<close> is called.
\<close>

theorem same_key_state_change_does_not_save_transaction:
  "navigationContainer c = Some n \<Longrightarrow> latestRoute c = Some p \<Longrightarrow> route_key p = route_key r \<Longrightarrow>
   (case onStateChange (Some r) c w of (c1, w1) \<Rightarrow>
      timers w1 = timers w
      \<and> stateChangeTimeout c1 = stateChangeTimeout c
      \<and> latestTransaction c1 = latestTransaction c
      \<and> transactions w1 = transactions w
      \<and> (\<forall>t h. latestTransaction c = Some t \<and> t < length (transactions w)
              \<and> stateChangeTimeout c = Some h \<and> h \<in> set (map fst (timers w)) \<longrightarrow>
            (case timerFires h c1 w1 of (c2, w2) \<Rightarrow>
               latestTransaction c2 = None
               \<and> ctx_sampled (txn_context (transactions w2 ! t)) = Some False
               \<and> txn_finished (transactions w2 ! t) = Suc (txn_finished (transactions w ! t))))
      \<and> (\<forall>current d v. timers (snd (onStateChange current d v)) \<noteq> timers v \<longrightarrow>
            (\<exists>t q. latestTransaction d = Some t \<and> current = Some q
               \<and> route_changed (latestRoute d) q)))"
proof -
  assume container: "navigationContainer c = Some n"
    and latest: "latestRoute c = Some p" and same: "route_key p = route_key r"
  have eq: "onStateChange (Some r) c w =
     (c\<lparr>recentRouteKeys := pushRecentRouteKey (route_key r) (recentRouteKeys c),
        latestRoute := Some r\<rparr>, w)"
    using container latest same by (rule onStateChange_same_key)
  have only: "\<forall>current d v. timers (snd (onStateChange current d v)) \<noteq> timers v \<longrightarrow>
      (\<exists>t q. latestTransaction d = Some t \<and> current = Some q \<and> route_changed (latestRoute d) q)"
    using onStateChange_clears_only_when_decorating by blast
  have "case (c\<lparr>recentRouteKeys := pushRecentRouteKey (route_key r) (recentRouteKeys c),
        latestRoute := Some r\<rparr>, w) of (c1, w1) \<Rightarrow>
      timers w1 = timers w
      \<and> stateChangeTimeout c1 = stateChangeTimeout c
      \<and> latestTransaction c1 = latestTransaction c
      \<and> transactions w1 = transactions w
      \<and> (\<forall>t h. latestTransaction c = Some t \<and> t < length (transactions w)
              \<and> stateChangeTimeout c = Some h \<and> h \<in> set (map fst (timers w)) \<longrightarrow>
            (case timerFires h c1 w1 of (c2, w2) \<Rightarrow>
               latestTransaction c2 = None
               \<and> ctx_sampled (txn_context (transactions w2 ! t)) = Some False
               \<and> txn_finished (transactions w2 ! t) = Suc (txn_finished (transactions w ! t))))"
    by (simp add: timerFires_def discardLatestTransaction_def finish_def set_sampled_def
        clearTimeout_def)
  with only show ?thesis
    unfolding eq by simp
qed

theorem same_key_state_change_does_not_save_transaction_witness:
  "navigationContainer
     (fst (run [Dispatch, StateChange (Some route_A), Dispatch] (ready_instrumentation, new_world)))
     = Some 0
   \<and> latestRoute
     (fst (run [Dispatch, StateChange (Some route_A), Dispatch] (ready_instrumentation, new_world)))
     = Some route_A
   \<and> latestTransaction
     (fst (run [Dispatch, StateChange (Some route_A), Dispatch] (ready_instrumentation, new_world)))
     = Some 1
   \<and> stateChangeTimeout
     (fst (run [Dispatch, StateChange (Some route_A), Dispatch] (ready_instrumentation, new_world)))
     = Some 1
   \<and> timers
     (snd (run [Dispatch, StateChange (Some route_A), Dispatch] (ready_instrumentation, new_world)))
     = [(1, 1000)]
   \<and> timers
     (snd (run [Dispatch, StateChange (Some route_A), Dispatch, StateChange (Some route_A)]
        (ready_instrumentation, new_world)))
     = [(1, 1000)]
   \<and> latestTransaction
     (fst (run [Dispatch, StateChange (Some route_A), Dispatch, StateChange (Some route_A),
                TimerFires 1] (ready_instrumentation, new_world)))
     = None
   \<and> ctx_sampled (txn_context (transactions
     (snd (run [Dispatch, StateChange (Some route_A), Dispatch, StateChange (Some route_A),
                TimerFires 1] (ready_instrumentation, new_world))) ! 1))
     = Some False
   \<and> txn_finished (transactions
     (snd (run [Dispatch, StateChange (Some route_A), Dispatch, StateChange (Some route_A),
                TimerFires 1] (ready_instrumentation, new_world))) ! 1)
     = 1"
proof -
  define s where
    "s = run [Dispatch, StateChange (Some route_A), Dispatch] (ready_instrumentation, new_world)"
  have container: "navigationContainer (fst s) = Some 0"
    by (simp add: s_def handler_defs sample_defs Let_def)
  have latest: "latestRoute (fst s) = Some route_A"
    by (simp add: s_def handler_defs sample_defs Let_def)
  have pending: "latestTransaction (fst s) = Some 1"
    by (simp add: s_def handler_defs sample_defs Let_def)
  have handle: "stateChangeTimeout (fst s) = Some 1"
    by (simp add: s_def handler_defs sample_defs Let_def)
  have live: "timers (snd s) = [(1, 1000)]"
    by (simp add: s_def handler_defs sample_defs Let_def)
  have size: "length (transactions (snd s)) = 2"
    by (simp add: s_def handler_defs sample_defs Let_def)
  have unfinished: "txn_finished (transactions (snd s) ! 1) = 0"
    by (simp add: s_def handler_defs sample_defs Let_def)
  obtain c1 w1 where s1: "onStateChange (Some route_A) (fst s) (snd s) = (c1, w1)"
    by (cases "onStateChange (Some route_A) (fst s) (snd s)")
  obtain c2 w2 where s2: "timerFires (Suc 0) c1 w1 = (c2, w2)"
    by (cases "timerFires (Suc 0) c1 w1")
  have "run ([Dispatch, StateChange (Some route_A), Dispatch] @ [StateChange (Some route_A)])
      (ready_instrumentation, new_world) = run [StateChange (Some route_A)] s"
    unfolding s_def by (rule run_append)
  then have run4: "run [Dispatch, StateChange (Some route_A), Dispatch, StateChange (Some route_A)]
      (ready_instrumentation, new_world) = (c1, w1)"
    using s1 by (cases s) simp
  have "run ([Dispatch, StateChange (Some route_A), Dispatch]
        @ [StateChange (Some route_A), TimerFires 1])
      (ready_instrumentation, new_world) = run [StateChange (Some route_A), TimerFires 1] s"
    unfolding s_def by (rule run_append)
  then have run5: "run [Dispatch, StateChange (Some route_A), Dispatch, StateChange (Some route_A),
      TimerFires 1] (ready_instrumentation, new_world) = (c2, w2)"
    using s1 s2 by (cases s) simp
  from same_key_state_change_does_not_save_transaction
    [OF container latest, where r = route_A and w = "snd s"]
  have "timers w1 = timers (snd s)
      \<and> latestTransaction c2 = None
      \<and> ctx_sampled (txn_context (transactions w2 ! 1)) = Some False
      \<and> txn_finished (transactions w2 ! 1) = Suc (txn_finished (transactions (snd s) ! 1))"
    using pending handle live size by (simp add: s1 s2)
  with container latest pending handle live unfinished show ?thesis
    unfolding run4 run5 s_def [symmetric] by simp
qed

text \<open>
  C1, evaluated on the code. Two dispatches in a row leave two live timers, of which the
  instance holds only the second handle. The state change for route A then decorates the
  pending transaction and clears that second timer; the first one is still live and, when
  it fires, marks the decorated transaction unsampled and finishes it.
\<close>

theorem second_dispatch_leaves_first_timer_live:
  "map fst (timers (snd (run [Dispatch, Dispatch] (ready_instrumentation, new_world)))) = [0, 1]
   \<and> latestTransaction (fst (run [Dispatch, Dispatch] (ready_instrumentation, new_world))) = Some 1
   \<and> stateChangeTimeout (fst (run [Dispatch, Dispatch] (ready_instrumentation, new_world))) = Some 1
   \<and> map fst (timers (snd (run [Dispatch, Dispatch, StateChange (Some route_A)]
        (ready_instrumentation, new_world)))) = [0]
   \<and> stateChangeTimeout (fst (run [Dispatch, Dispatch, StateChange (Some route_A)]
        (ready_instrumentation, new_world))) = None
   \<and> latestTransaction (fst (run [Dispatch, Dispatch, StateChange (Some route_A)]
        (ready_instrumentation, new_world))) = Some 1
   \<and> ctx_name (txn_context (transactions (snd (run [Dispatch, Dispatch, StateChange (Some route_A)]
        (ready_instrumentation, new_world))) ! 1)) = ''A''
   \<and> ctx_sampled (txn_context (transactions (snd (run [Dispatch, Dispatch,
        StateChange (Some route_A)] (ready_instrumentation, new_world))) ! 1)) = None
   \<and> txn_finished (transactions (snd (run [Dispatch, Dispatch, StateChange (Some route_A)]
        (ready_instrumentation, new_world))) ! 1) = 0
   \<and> latestTransaction (fst (run [Dispatch, Dispatch, StateChange (Some route_A), TimerFires 0]
        (ready_instrumentation, new_world))) = None
   \<and> ctx_name (txn_context (transactions (snd (run [Dispatch, Dispatch, StateChange (Some route_A),
        TimerFires 0] (ready_instrumentation, new_world))) ! 1)) = ''A''
   \<and> ctx_sampled (txn_context (transactions (snd (run [Dispatch, Dispatch,
        StateChange (Some route_A), TimerFires 0] (ready_instrumentation, new_world))) ! 1))
       = Some False
   \<and> txn_finished (transactions (snd (run [Dispatch, Dispatch, StateChange (Some route_A),
        TimerFires 0] (ready_instrumentation, new_world))) ! 1) = 1"
  by (simp add: handler_defs sample_defs Let_def)

subsection \<open>Decorating the pending transaction\<close>

lemma onStateChange_decorate:
  "navigationContainer c = Some n \<Longrightarrow> latestTransaction c = Some t \<Longrightarrow>
   route_changed (latestRoute c) r \<Longrightarrow>
   onStateChange (Some r) c w =
     (case decorate t r (latestRoute c) c w of (c1, w1) \<Rightarrow>
        (c1\<lparr>recentRouteKeys := pushRecentRouteKey (route_key r) (recentRouteKeys c1),
            latestRoute := Some r\<rparr>, w1))"
  by (simp add: onStateChange_def Let_def)

lemma decorate_returned:
  "beforeNavigate c = Some hook \<Longrightarrow>
   hook (updatedContext (toContext t w) r prev (route_key r \<in> set (recentRouteKeys c))) = Some fc \<Longrightarrow>
   decorate t r prev c w =
     (if ctx_sampled fc = Some False
      then (c, updateWithContext t fc (logger LevelLog (WillNotSend (ctx_name fc))
              (w\<lparr>trace := trace w @ [BeforeNavigateCalled
                 (updatedContext (toContext t w) r prev (route_key r \<in> set (recentRouteKeys c)))]\<rparr>)))
      else (case stateChangeTimeout c of
              Some h \<Rightarrow> (c\<lparr>stateChangeTimeout := None\<rparr>,
                 updateWithContext t fc (clearTimeout h
                   (w\<lparr>trace := trace w @ [BeforeNavigateCalled
                     (updatedContext (toContext t w) r prev (route_key r \<in> set (recentRouteKeys c)))]\<rparr>)))
            | None \<Rightarrow> (c,
                 updateWithContext t fc
                   (w\<lparr>trace := trace w @ [BeforeNavigateCalled
                     (updatedContext (toContext t w) r prev (route_key r \<in> set (recentRouteKeys c)))]\<rparr>))))"
  by (simp add: decorate_def call_beforeNavigate_def Let_def split: option.split)

lemma decorate_nothing_returned:
  "fst (call_beforeNavigate c
      (updatedContext (toContext t w) r prev (route_key r \<in> set (recentRouteKeys c))) w) = None \<Longrightarrow>
   decorate t r prev c w =
     (c, updateWithContext t
        ((updatedContext (toContext t w) r prev (route_key r \<in> set (recentRouteKeys c)))
           \<lparr>ctx_sampled := Some False\<rparr>)
        (logger LevelLog (WillNotSend (route_name r))
          (logger LevelError BeforeNavigateReturnedNothing
            (snd (call_beforeNavigate c
              (updatedContext (toContext t w) r prev (route_key r \<in> set (recentRouteKeys c))) w)))))"
  by (simp add: decorate_def Let_def split_def updatedContext_def split: option.split)

text \<open>
  C3. A state change decorates the pending transaction \<open>t\<close> and the hook returns the
  context \<open>fc\<close>. If \<open>fc\<close> has \<^verbatim>\<open>sampled\<close> false, the timers and the handle the instance
  holds stay as they were; otherwise the handle is cleared and the timer it named is no
  longer live. Either way \<open>fc\<close> becomes the context of \<open>t\<close>, and \<open>t\<close> stays the pending
  transaction.
\<close>

theorem veto_keeps_timer_armed_else_cleared:
  "navigationContainer c = Some n \<Longrightarrow> latestTransaction c = Some t \<Longrightarrow>
   t < length (transactions w) \<Longrightarrow> route_changed (latestRoute c) r \<Longrightarrow>
   beforeNavigate c = Some hook \<Longrightarrow>
   hook (updatedContext (toContext t w) r (latestRoute c) (route_key r \<in> set (recentRouteKeys c)))
     = Some fc \<Longrightarrow>
   (case onStateChange (Some r) c w of (c', w') \<Rightarrow>
      txn_context (transactions w' ! t) = fc
      \<and> latestTransaction c' = Some t
      \<and> (if ctx_sampled fc = Some False
          then stateChangeTimeout c' = stateChangeTimeout c \<and> timers w' = timers w
          else stateChangeTimeout c' = None
             \<and> timers w' = (case stateChangeTimeout c of
                              None \<Rightarrow> timers w
                            | Some h \<Rightarrow> filter (\<lambda>p. fst p \<noteq> h) (timers w))
             \<and> (\<forall>h. stateChangeTimeout c = Some h \<longrightarrow> h \<notin> set (map fst (timers w')))))"
proof -
  assume container: "navigationContainer c = Some n" and pending: "latestTransaction c = Some t"
    and valid: "t < length (transactions w)" and changed: "route_changed (latestRoute c) r"
    and hook: "beforeNavigate c = Some hook"
    and returned: "hook (updatedContext (toContext t w) r (latestRoute c)
        (route_key r \<in> set (recentRouteKeys c))) = Some fc"
  show ?thesis
    unfolding onStateChange_decorate [OF container pending changed]
      decorate_returned [OF hook returned]
    using pending valid
    by (auto simp add: updateWithContext_def logger_def clearTimeout_def split: option.split)
qed

theorem veto_keeps_timer_armed_else_cleared_witness:
  "timers (snd (onDispatch ready_instrumentation new_world)) = [(0, 1000)]
   \<and> txn_context (transactions (snd (onStateChange (Some route_A)
         (fst (onDispatch ready_instrumentation new_world))
         (snd (onDispatch ready_instrumentation new_world)))) ! 0)
       = updatedContext BLANK_TRANSACTION_CONTEXT_V5 route_A None False
   \<and> stateChangeTimeout (fst (onStateChange (Some route_A)
         (fst (onDispatch ready_instrumentation new_world))
         (snd (onDispatch ready_instrumentation new_world)))) = None
   \<and> timers (snd (onStateChange (Some route_A)
         (fst (onDispatch ready_instrumentation new_world))
         (snd (onDispatch ready_instrumentation new_world)))) = []
   \<and> txn_context (transactions (snd (onStateChange (Some route_A)
         (fst (onDispatch vetoing_instrumentation new_world))
         (snd (onDispatch vetoing_instrumentation new_world)))) ! 0)
       = (updatedContext BLANK_TRANSACTION_CONTEXT_V5 route_A None False)\<lparr>ctx_sampled := Some False\<rparr>
   \<and> stateChangeTimeout (fst (onStateChange (Some route_A)
         (fst (onDispatch vetoing_instrumentation new_world))
         (snd (onDispatch vetoing_instrumentation new_world)))) = Some 0
   \<and> timers (snd (onStateChange (Some route_A)
         (fst (onDispatch vetoing_instrumentation new_world))
         (snd (onDispatch vetoing_instrumentation new_world)))) = [(0, 1000)]"
proof -
  define s where "s = onDispatch ready_instrumentation new_world"
  define v where "v = onDispatch vetoing_instrumentation new_world"
  define u where "u = updatedContext BLANK_TRANSACTION_CONTEXT_V5 route_A None False"
  have s: "navigationContainer (fst s) = Some 0" "latestTransaction (fst s) = Some 0"
    "0 < length (transactions (snd s))" "route_changed (latestRoute (fst s)) route_A"
    "beforeNavigate (fst s) = Some Some" "stateChangeTimeout (fst s) = Some 0"
    "timers (snd s) = [(0, 1000)]" "toContext 0 (snd s) = BLANK_TRANSACTION_CONTEXT_V5"
    "latestRoute (fst s) = None" "recentRouteKeys (fst s) = []"
    by (simp_all add: s_def onDispatch_def onRouteWillChange_def setTimeout_def toContext_def
        route_changed_def sample_defs)
  have v: "navigationContainer (fst v) = Some 0" "latestTransaction (fst v) = Some 0"
    "0 < length (transactions (snd v))" "route_changed (latestRoute (fst v)) route_A"
    "beforeNavigate (fst v) = Some (\<lambda>context. Some (context\<lparr>ctx_sampled := Some False\<rparr>))"
    "stateChangeTimeout (fst v) = Some 0"
    "timers (snd v) = [(0, 1000)]" "toContext 0 (snd v) = BLANK_TRANSACTION_CONTEXT_V5"
    "latestRoute (fst v) = None" "recentRouteKeys (fst v) = []"
    by (simp_all add: v_def onDispatch_def onRouteWillChange_def setTimeout_def toContext_def
        route_changed_def sample_defs)
  have unsampled: "ctx_sampled u = None"
    by (simp add: u_def updatedContext_def BLANK_TRANSACTION_CONTEXT_V5_def)
  have "Some (updatedContext (toContext 0 (snd s)) route_A (latestRoute (fst s))
      (route_key route_A \<in> set (recentRouteKeys (fst s)))) = Some u"
    by (simp add: s u_def)
  from veto_keeps_timer_armed_else_cleared [OF s(1) s(2) s(3) s(4) s(5) this]
  have passed: "txn_context (transactions (snd (onStateChange (Some route_A) (fst s) (snd s))) ! 0) = u
      \<and> stateChangeTimeout (fst (onStateChange (Some route_A) (fst s) (snd s))) = None
      \<and> timers (snd (onStateChange (Some route_A) (fst s) (snd s))) = []"
    by (simp add: split_def unsampled s)
  have "(\<lambda>context. Some (context\<lparr>ctx_sampled := Some False\<rparr>))
      (updatedContext (toContext 0 (snd v)) route_A (latestRoute (fst v))
        (route_key route_A \<in> set (recentRouteKeys (fst v)))) = Some (u\<lparr>ctx_sampled := Some False\<rparr>)"
    by (simp add: v u_def)
  from veto_keeps_timer_armed_else_cleared [OF v(1) v(2) v(3) v(4) v(5) this]
  have vetoed: "txn_context (transactions (snd (onStateChange (Some route_A) (fst v) (snd v))) ! 0)
        = u\<lparr>ctx_sampled := Some False\<rparr>
      \<and> stateChangeTimeout (fst (onStateChange (Some route_A) (fst v) (snd v))) = Some 0
      \<and> timers (snd (onStateChange (Some route_A) (fst v) (snd v))) = [(0, 1000)]"
    by (simp add: split_def v)
  from s(7) passed vetoed show ?thesis
    unfolding s_def v_def u_def by simp
qed

text \<open>
  C5. A state change decorates the pending transaction \<open>t\<close> and the hook returns nothing
  (or no hook is set). An error is logged, the context applied to \<open>t\<close> is the updated
  context with \<^verbatim>\<open>sampled\<close> false, so the sampling decision of \<open>t\<close> is false, and the
  timers and the handle the instance holds stay as they were.
\<close>

theorem hook_returning_nothing_gives_unsampled_context:
  "navigationContainer c = Some n \<Longrightarrow> latestTransaction c = Some t \<Longrightarrow>
   t < length (transactions w) \<Longrightarrow> route_changed (latestRoute c) r \<Longrightarrow>
   fst (call_beforeNavigate c
      (updatedContext (toContext t w) r (latestRoute c) (route_key r \<in> set (recentRouteKeys c))) w)
     = None \<Longrightarrow>
   (case onStateChange (Some r) c w of (c', w') \<Rightarrow>
      txn_context (transactions w' ! t)
        = (updatedContext (toContext t w) r (latestRoute c) (route_key r \<in> set (recentRouteKeys c)))
            \<lparr>ctx_sampled := Some False\<rparr>
      \<and> ctx_sampled (txn_context (transactions w' ! t)) = Some False
      \<and> trace w' = trace (snd (call_beforeNavigate c
            (updatedContext (toContext t w) r (latestRoute c)
               (route_key r \<in> set (recentRouteKeys c))) w))
          @ [Logged LevelError BeforeNavigateReturnedNothing,
             Logged LevelLog (WillNotSend (route_name r))]
      \<and> Logged LevelError BeforeNavigateReturnedNothing \<in> set (trace w')
      \<and> stateChangeTimeout c' = stateChangeTimeout c
      \<and> timers w' = timers w
      \<and> latestTransaction c' = Some t)"
proof -
  assume container: "navigationContainer c = Some n" and pending: "latestTransaction c = Some t"
    and valid: "t < length (transactions w)" and changed: "route_changed (latestRoute c) r"
    and silent: "fst (call_beforeNavigate c
      (updatedContext (toContext t w) r (latestRoute c) (route_key r \<in> set (recentRouteKeys c))) w)
     = None"
  show ?thesis
    unfolding onStateChange_decorate [OF container pending changed]
      decorate_nothing_returned [OF silent]
    using pending valid
    by (auto simp add: updateWithContext_def logger_def call_beforeNavigate_def
        split: option.split)
qed

theorem hook_returning_nothing_gives_unsampled_context_witness:
  "fst (call_beforeNavigate (fst (onDispatch silent_instrumentation new_world))
      (updatedContext BLANK_TRANSACTION_CONTEXT_V5 route_A None False)
      (snd (onDispatch silent_instrumentation new_world))) = None
   \<and> txn_context (transactions (snd (onStateChange (Some route_A)
         (fst (onDispatch silent_instrumentation new_world))
         (snd (onDispatch silent_instrumentation new_world)))) ! 0)
       = (updatedContext BLANK_TRANSACTION_CONTEXT_V5 route_A None False)\<lparr>ctx_sampled := Some False\<rparr>
   \<and> trace (snd (onStateChange (Some route_A)
         (fst (onDispatch silent_instrumentation new_world))
         (snd (onDispatch silent_instrumentation new_world))))
       = [BeforeNavigateCalled (updatedContext BLANK_TRANSACTION_CONTEXT_V5 route_A None False),
          Logged LevelError BeforeNavigateReturnedNothing,
          Logged LevelLog (WillNotSend ''A'')]
   \<and> stateChangeTimeout (fst (onStateChange (Some route_A)
         (fst (onDispatch silent_instrumentation new_world))
         (snd (onDispatch silent_instrumentation new_world)))) = Some 0
   \<and> timers (snd (onStateChange (Some route_A)
         (fst (onDispatch silent_instrumentation new_world))
         (snd (onDispatch silent_instrumentation new_world)))) = [(0, 1000)]"
proof -
  define s where "s = onDispatch silent_instrumentation new_world"
  define u where "u = updatedContext BLANK_TRANSACTION_CONTEXT_V5 route_A None False"
  have s: "navigationContainer (fst s) = Some 0" "latestTransaction (fst s) = Some 0"
    "0 < length (transactions (snd s))" "route_changed (latestRoute (fst s)) route_A"
    "beforeNavigate (fst s) = Some (\<lambda>context. None)" "stateChangeTimeout (fst s) = Some 0"
    "timers (snd s) = [(0, 1000)]" "toContext 0 (snd s) = BLANK_TRANSACTION_CONTEXT_V5"
    "latestRoute (fst s) = None" "recentRouteKeys (fst s) = []" "trace (snd s) = []"
    by (simp_all add: s_def onDispatch_def onRouteWillChange_def setTimeout_def toContext_def
        route_changed_def sample_defs)
  have name: "route_name route_A = ''A''"
    by (simp add: route_A_def)
  have called: "call_beforeNavigate (fst s) u (snd s)
      = (None, (snd s)\<lparr>trace := [BeforeNavigateCalled u]\<rparr>)"
    by (simp add: call_beforeNavigate_def s)
  then have silent: "fst (call_beforeNavigate (fst s)
      (updatedContext (toContext 0 (snd s)) route_A (latestRoute (fst s))
        (route_key route_A \<in> set (recentRouteKeys (fst s)))) (snd s)) = None"
    by (simp add: s u_def)
  from hook_returning_nothing_gives_unsampled_context [OF s(1) s(2) s(3) s(4) silent]
  have "txn_context (transactions (snd (onStateChange (Some route_A) (fst s) (snd s))) ! 0)
        = u\<lparr>ctx_sampled := Some False\<rparr>
      \<and> trace (snd (onStateChange (Some route_A) (fst s) (snd s)))
        = [BeforeNavigateCalled u, Logged LevelError BeforeNavigateReturnedNothing,
           Logged LevelLog (WillNotSend ''A'')]
      \<and> stateChangeTimeout (fst (onStateChange (Some route_A) (fst s) (snd s))) = Some 0
      \<and> timers (snd (onStateChange (Some route_A) (fst s) (snd s))) = [(0, 1000)]"
    using called by (simp add: split_def s u_def [symmetric] name)
  with called show ?thesis
    unfolding s_def u_def by simp
qed

subsection \<open>The updated context\<close>

lemma decorate_calls_hook_with_updated_context:
  "beforeNavigate c = Some hook \<Longrightarrow>
   \<exists>rest. trace (snd (decorate t r prev c w))
      = trace w @ BeforeNavigateCalled
          (updatedContext (toContext t w) r prev (route_key r \<in> set (recentRouteKeys c))) # rest"
  by (simp add: decorate_def call_beforeNavigate_def Let_def split_def logger_def
      updateWithContext_def clearTimeout_def split: option.split)

text \<open>
  C6. The updated context is the snapshot with three fields replaced: \<^verbatim>\<open>name\<close> is the
  route's name; \<^verbatim>\<open>tags\<close> is the snapshot's tags with \<^verbatim>\<open>routing.route.name\<close> set to the
  route's name; \<^verbatim>\<open>data\<close> is the snapshot's data with \<^verbatim>\<open>route\<close> and \<^verbatim>\<open>previousRoute\<close>
  set, absent \<^verbatim>\<open>params\<close> becoming the empty object and a missing previous route
  \<^verbatim>\<open>null\<close>. No property, tag or data entry of the snapshot is dropped. On a decorating
  state change the hook is called with this context, built from the snapshot of the pending
  transaction, the current route, the latest route, and whether the ledger holds the
  route's key.
\<close>

theorem updated_context_extends_snapshot:
  "ctx_name (updatedContext original r prev seen) = route_name r
   \<and> ctx_op (updatedContext original r prev seen) = ctx_op original
   \<and> ctx_sampled (updatedContext original r prev seen) = ctx_sampled original
   \<and> ctx_rest (updatedContext original r prev seen) = ctx_rest original
   \<and> map_of (ctx_tags (updatedContext original r prev seen))
       = (map_of (ctx_tags original))(''routing.route.name'' \<mapsto> route_name r)
   \<and> map_of (ctx_data (updatedContext original r prev seen))
       = (map_of (ctx_data original))
           (''route'' \<mapsto>
              JObj [(''name'', JStr (route_name r)),
                    (''key'', JStr (route_key r)),
                    (''params'', JObj (case route_params r of None \<Rightarrow> [] | Some ps \<Rightarrow> ps)),
                    (''hasBeenSeen'', JBool seen)],
            ''previousRoute'' \<mapsto>
              (case prev of
                 None \<Rightarrow> JNull
               | Some p \<Rightarrow>
                   JObj [(''name'', JStr (route_name p)),
                         (''key'', JStr (route_key p)),
                         (''params'', JObj (case route_params p of None \<Rightarrow> [] | Some ps \<Rightarrow> ps))]))
   \<and> set (map fst (ctx_tags original)) \<subseteq> set (map fst (ctx_tags (updatedContext original r prev seen)))
   \<and> set (map fst (ctx_data original)) \<subseteq> set (map fst (ctx_data (updatedContext original r prev seen)))
   \<and> (navigationContainer c = Some n \<and> latestTransaction c = Some t
        \<and> route_changed (latestRoute c) r \<and> beforeNavigate c = Some hook \<longrightarrow>
      (\<exists>rest. trace (snd (onStateChange (Some r) c w))
         = trace w @ BeforeNavigateCalled
             (updatedContext (toContext t w) r (latestRoute c)
                (route_key r \<in> set (recentRouteKeys c))) # rest))"
proof -
  have fields: "ctx_name (updatedContext original r prev seen) = route_name r
      \<and> ctx_op (updatedContext original r prev seen) = ctx_op original
      \<and> ctx_sampled (updatedContext original r prev seen) = ctx_sampled original
      \<and> ctx_rest (updatedContext original r prev seen) = ctx_rest original"
    by (simp add: updatedContext_def)
  have tags: "map_of (ctx_tags (updatedContext original r prev seen))
       = (map_of (ctx_tags original))(''routing.route.name'' \<mapsto> route_name r)"
    by (simp add: updatedContext_def update_conv')
  have data: "map_of (ctx_data (updatedContext original r prev seen))
       = (map_of (ctx_data original))
           (''route'' \<mapsto>
              JObj [(''name'', JStr (route_name r)),
                    (''key'', JStr (route_key r)),
                    (''params'', JObj (case route_params r of None \<Rightarrow> [] | Some ps \<Rightarrow> ps)),
                    (''hasBeenSeen'', JBool seen)],
            ''previousRoute'' \<mapsto>
              (case prev of
                 None \<Rightarrow> JNull
               | Some p \<Rightarrow>
                   JObj [(''name'', JStr (route_name p)),
                         (''key'', JStr (route_key p)),
                         (''params'', JObj (case route_params p of None \<Rightarrow> [] | Some ps \<Rightarrow> ps))]))"
    by (cases prev)
      (simp_all add: updatedContext_def update_conv' route_data_def previousRoute_data_def
        params_or_empty_def)
  have tag_keys: "set (map fst (ctx_tags original))
      \<subseteq> set (map fst (ctx_tags (updatedContext original r prev seen)))"
    by (auto simp add: updatedContext_def update_keys)
  have data_keys: "set (map fst (ctx_data original))
      \<subseteq> set (map fst (ctx_data (updatedContext original r prev seen)))"
    by (auto simp add: updatedContext_def update_keys)
  have hook_arg: "navigationContainer c = Some n \<and> latestTransaction c = Some t
        \<and> route_changed (latestRoute c) r \<and> beforeNavigate c = Some hook \<longrightarrow>
      (\<exists>rest. trace (snd (onStateChange (Some r) c w))
         = trace w @ BeforeNavigateCalled
             (updatedContext (toContext t w) r (latestRoute c)
                (route_key r \<in> set (recentRouteKeys c))) # rest)"
  proof (intro impI, elim conjE)
    assume container: "navigationContainer c = Some n" and pending: "latestTransaction c = Some t"
      and changed: "route_changed (latestRoute c) r" and hook: "beforeNavigate c = Some hook"
    show "\<exists>rest. trace (snd (onStateChange (Some r) c w))
         = trace w @ BeforeNavigateCalled
             (updatedContext (toContext t w) r (latestRoute c)
                (route_key r \<in> set (recentRouteKeys c))) # rest"
      using decorate_calls_hook_with_updated_context [OF hook, of t r "latestRoute c" w]
      by (simp add: onStateChange_decorate [OF container pending changed] split_def)
  qed
  from fields tags data tag_keys data_keys hook_arg show ?thesis
    by (intro conjI) simp_all
qed

theorem updated_context_extends_snapshot_witness:
  "navigationContainer (fst (onDispatch ready_instrumentation new_world)) = Some 0
   \<and> latestTransaction (fst (onDispatch ready_instrumentation new_world)) = Some 0
   \<and> route_changed (latestRoute (fst (onDispatch ready_instrumentation new_world))) route_B
   \<and> beforeNavigate (fst (onDispatch ready_instrumentation new_world)) = Some Some
   \<and> hd (trace (snd (onStateChange (Some route_B)
          (fst (onDispatch ready_instrumentation new_world))
          (snd (onDispatch ready_instrumentation new_world)))))
       = BeforeNavigateCalled (updatedContext BLANK_TRANSACTION_CONTEXT_V5 route_B None False)
   \<and> ctx_name (updatedContext BLANK_TRANSACTION_CONTEXT_V5 route_B None False) = ''B''
   \<and> ctx_op (updatedContext BLANK_TRANSACTION_CONTEXT_V5 route_B None False) = Some ''navigation''
   \<and> map_of (ctx_tags (updatedContext BLANK_TRANSACTION_CONTEXT_V5 route_B None False))
         ''routing.instrumentation'' = Some ''react-navigation-v5''
   \<and> map_of (ctx_tags (updatedContext BLANK_TRANSACTION_CONTEXT_V5 route_B None False))
         ''routing.route.name'' = Some ''B''
   \<and> map_of (ctx_data (updatedContext BLANK_TRANSACTION_CONTEXT_V5 route_B None False))
         ''route''
       = Some (JObj [(''name'', JStr ''B''), (''key'', JStr ''k2''),
                     (''params'', JObj [(''id'', JStr ''7'')]), (''hasBeenSeen'', JBool False)])
   \<and> map_of (ctx_data (updatedContext BLANK_TRANSACTION_CONTEXT_V5 route_B None False))
         ''previousRoute'' = Some JNull
   \<and> map_of (ctx_data (updatedContext BLANK_TRANSACTION_CONTEXT_V5 route_B (Some route_A) True))
         ''previousRoute''
       = Some (JObj [(''name'', JStr ''A''), (''key'', JStr ''k1''), (''params'', JObj [])])"
proof -
  define s where "s = onDispatch ready_instrumentation new_world"
  have s: "navigationContainer (fst s) = Some 0" "latestTransaction (fst s) = Some 0"
    "route_changed (latestRoute (fst s)) route_B" "beforeNavigate (fst s) = Some Some"
    "toContext 0 (snd s) = BLANK_TRANSACTION_CONTEXT_V5"
    "latestRoute (fst s) = None" "recentRouteKeys (fst s) = []" "trace (snd s) = []"
    by (simp_all add: s_def onDispatch_def onRouteWillChange_def setTimeout_def toContext_def
        route_changed_def sample_defs)
  note first = updated_context_extends_snapshot
    [where original = BLANK_TRANSACTION_CONTEXT_V5 and r = route_B and prev = None
       and seen = False and c = "fst s" and w = "snd s" and n = 0 and t = 0 and hook = Some]
  note second = updated_context_extends_snapshot
    [where original = BLANK_TRANSACTION_CONTEXT_V5 and r = route_B and prev = "Some route_A"
       and seen = True]
  from first s
  have called: "hd (trace (snd (onStateChange (Some route_B) (fst s) (snd s))))
      = BeforeNavigateCalled (updatedContext BLANK_TRANSACTION_CONTEXT_V5 route_B None False)"
    by auto
  from first have fields:
    "ctx_name (updatedContext BLANK_TRANSACTION_CONTEXT_V5 route_B None False) = ''B''"
    "ctx_op (updatedContext BLANK_TRANSACTION_CONTEXT_V5 route_B None False) = Some ''navigation''"
    by (simp_all add: route_B_def BLANK_TRANSACTION_CONTEXT_V5_def)
  from first have tags:
    "map_of (ctx_tags (updatedContext BLANK_TRANSACTION_CONTEXT_V5 route_B None False))
       ''routing.instrumentation'' = Some ''react-navigation-v5''"
    "map_of (ctx_tags (updatedContext BLANK_TRANSACTION_CONTEXT_V5 route_B None False))
       ''routing.route.name'' = Some ''B''"
    by (simp_all add: route_B_def BLANK_TRANSACTION_CONTEXT_V5_def instrumentationName_def)
  from first have data:
    "map_of (ctx_data (updatedContext BLANK_TRANSACTION_CONTEXT_V5 route_B None False)) ''route''
       = Some (JObj [(''name'', JStr ''B''), (''key'', JStr ''k2''),
                     (''params'', JObj [(''id'', JStr ''7'')]), (''hasBeenSeen'', JBool False)])"
    "map_of (ctx_data (updatedContext BLANK_TRANSACTION_CONTEXT_V5 route_B None False))
       ''previousRoute'' = Some JNull"
    by (simp_all add: route_B_def)
  from second have previous:
    "map_of (ctx_data (updatedContext BLANK_TRANSACTION_CONTEXT_V5 route_B (Some route_A) True))
       ''previousRoute''
       = Some (JObj [(''name'', JStr ''A''), (''key'', JStr ''k1''), (''params'', JObj [])])"
    by (simp add: route_A_def)
  from s(1-4) called fields tags data previous show ?thesis
    unfolding s_def by (intro conjI)
qed

subsection \<open>Registration\<close>

lemma decorate_keeps_registration:
  "listeners (snd (decorate t r prev c w)) = listeners w
   \<and> sentry_rn_v5_registered (snd (decorate t r prev c w)) = sentry_rn_v5_registered w"
  by (simp add: decorate_def call_beforeNavigate_def Let_def split_def logger_def
      updateWithContext_def clearTimeout_def split: option.split)

lemma decorate_keeps_container:
  "navigationContainer (fst (decorate t r prev c w)) = navigationContainer c"
  by (simp add: decorate_def call_beforeNavigate_def Let_def split_def split: option.split)

lemma onStateChange_keeps_registration:
  "listeners (snd (onStateChange current c w)) = listeners w
   \<and> sentry_rn_v5_registered (snd (onStateChange current c w)) = sentry_rn_v5_registered w
   \<and> navigationContainer (fst (onStateChange current c w)) = navigationContainer c"
  by (simp add: onStateChange_def Let_def split_def logger_def decorate_keeps_registration
      decorate_keeps_container split: option.split)

lemma timerFires_keeps_registration:
  "listeners (snd (timerFires h c w)) = listeners w
   \<and> sentry_rn_v5_registered (snd (timerFires h c w)) = sentry_rn_v5_registered w"
  by (simp add: timerFires_def discardLatestTransaction_def finish_def set_sampled_def
      clearTimeout_def split: option.split)

lemma step_keeps_registration:
  "listeners (snd (step e (c, w))) = listeners w
   \<and> sentry_rn_v5_registered (snd (step e (c, w))) = sentry_rn_v5_registered w"
  by (cases e)
    (simp_all add: onDispatch_fields onStateChange_keeps_registration timerFires_keeps_registration)

lemma registerRoutingInstrumentation_keeps_registration:
  "listeners (snd (registerRoutingInstrumentation hook current c w)) = listeners w
   \<and> sentry_rn_v5_registered (snd (registerRoutingInstrumentation hook current c w))
       = sentry_rn_v5_registered w"
  by (simp add: registerRoutingInstrumentation_def Let_def split_def onDispatch_fields
      onStateChange_keeps_registration split: option.split)

lemma register_new_container:
  "\<not> sentry_rn_v5_registered w \<Longrightarrow> resolve_ref ref = Inr (Some k) \<Longrightarrow>
   \<exists>c' w'. registerNavigationContainer ref current c w = Inr (c', w')
      \<and> navigationContainer c' = Some k
      \<and> listeners w'
          = listeners w @ [(k, ''__unsafe_action__'', OnDispatch), (k, ''state'', OnStateChange)]
      \<and> sentry_rn_v5_registered w'"
  by (simp add: registerNavigationContainer_def Let_def split_def addListener_def logger_def
      onStateChange_keeps_registration split: option.split)

text \<open>
  What \<^verbatim>\<open>registerNavigationContainer\<close> does on a ref that is an object. With the flag
  set it only logs: the instance, the listeners and the flag stay as they were. With the
  flag unset and a ref object that holds no container it warns and leaves the flag unset
  and the listeners as they were. With the flag unset and a ref that yields a container it
  adds exactly the dispatch listener and the state listener to that container and sets the
  flag. No operation of the class resets the flag: a registration that returns leaves a
  set flag set, and the handlers and \<^verbatim>\<open>registerRoutingInstrumentation\<close> do not touch it.
\<close>

lemma registration_happens_once:
  "(sentry_rn_v5_registered w \<longrightarrow>
      registerNavigationContainer ref current c w
        = Inr (c, w\<lparr>trace := trace w @ [Logged LevelLog AlreadyRegistered]\<rparr>))
   \<and> (\<not> sentry_rn_v5_registered w \<and> resolve_ref ref = Inr None \<longrightarrow>
      registerNavigationContainer ref current c w
        = Inr (c\<lparr>navigationContainer := None\<rparr>,
               w\<lparr>trace := trace w @ [Logged LevelWarn InvalidContainerRef]\<rparr>))
   \<and> (\<not> sentry_rn_v5_registered w \<and> resolve_ref ref = Inr (Some k) \<longrightarrow>
      (\<exists>c' w'. registerNavigationContainer ref current c w = Inr (c', w')
         \<and> navigationContainer c' = Some k
         \<and> listeners w'
             = listeners w @ [(k, ''__unsafe_action__'', OnDispatch), (k, ''state'', OnStateChange)]
         \<and> sentry_rn_v5_registered w'))
   \<and> (\<forall>c' w'. registerNavigationContainer ref current c w = Inr (c', w')
         \<and> sentry_rn_v5_registered w \<longrightarrow> sentry_rn_v5_registered w')
   \<and> sentry_rn_v5_registered (snd (step e (c, w))) = sentry_rn_v5_registered w
   \<and> sentry_rn_v5_registered (snd (registerRoutingInstrumentation hook current c w))
       = sentry_rn_v5_registered w"
proof -
  have already: "sentry_rn_v5_registered w \<longrightarrow>
      registerNavigationContainer ref current c w
        = Inr (c, w\<lparr>trace := trace w @ [Logged LevelLog AlreadyRegistered]\<rparr>)"
    by (simp add: registerNavigationContainer_def logger_def)
  have invalid: "\<not> sentry_rn_v5_registered w \<and> resolve_ref ref = Inr None \<longrightarrow>
      registerNavigationContainer ref current c w
        = Inr (c\<lparr>navigationContainer := None\<rparr>,
               w\<lparr>trace := trace w @ [Logged LevelWarn InvalidContainerRef]\<rparr>)"
    by (simp add: registerNavigationContainer_def logger_def)
  have fresh: "\<not> sentry_rn_v5_registered w \<and> resolve_ref ref = Inr (Some k) \<longrightarrow>
      (\<exists>c' w'. registerNavigationContainer ref current c w = Inr (c', w')
         \<and> navigationContainer c' = Some k
         \<and> listeners w'
             = listeners w @ [(k, ''__unsafe_action__'', OnDispatch), (k, ''state'', OnStateChange)]
         \<and> sentry_rn_v5_registered w')"
    using register_new_container [of w ref k current c] by blast
  have stays: "\<forall>c' w'. registerNavigationContainer ref current c w = Inr (c', w')
         \<and> sentry_rn_v5_registered w \<longrightarrow> sentry_rn_v5_registered w'"
  proof (intro allI impI, elim conjE)
    fix c' w'
    assume returned: "registerNavigationContainer ref current c w = Inr (c', w')"
      and flag: "sentry_rn_v5_registered w"
    from already flag returned
    have "w' = w\<lparr>trace := trace w @ [Logged LevelLog AlreadyRegistered]\<rparr>"
      by simp
    with flag show "sentry_rn_v5_registered w'"
      by simp
  qed
  have handlers: "sentry_rn_v5_registered (snd (step e (c, w))) = sentry_rn_v5_registered w"
    using step_keeps_registration [of e c w] by (rule conjunct2)
  have routing: "sentry_rn_v5_registered (snd (registerRoutingInstrumentation hook current c w))
       = sentry_rn_v5_registered w"
    using registerRoutingInstrumentation_keeps_registration [of hook current c w]
    by (rule conjunct2)
  from already invalid fresh stays handlers routing
  show ?thesis by (intro conjI)
qed

lemma registration_happens_once_witness:
  "\<not> sentry_rn_v5_registered new_world
   \<and> resolve_ref (RefObject None) = Inr None
   \<and> registerNavigationContainer (RefObject None) None new_instrumentation new_world
       = Inr (new_instrumentation,
              new_world\<lparr>trace := [Logged LevelWarn InvalidContainerRef]\<rparr>)
   \<and> resolve_ref (RefObject (Some 5)) = Inr (Some 5)
   \<and> (\<exists>c' w'. registerNavigationContainer (RefObject (Some 5)) None new_instrumentation new_world
         = Inr (c', w')
       \<and> listeners w' = [(5, ''__unsafe_action__'', OnDispatch), (5, ''state'', OnStateChange)]
       \<and> sentry_rn_v5_registered w'
       \<and> registerNavigationContainer (Container 6) None c' w'
           = Inr (c', w'\<lparr>trace := trace w' @ [Logged LevelLog AlreadyRegistered]\<rparr>))"
proof -
  have unset: "\<not> sentry_rn_v5_registered new_world"
    by (simp add: new_world_def)
  have no_container: "resolve_ref (RefObject None) = Inr None"
    and container: "resolve_ref (RefObject (Some 5)) = Inr (Some 5)"
    by (simp_all add: resolve_ref_def)
  from registration_happens_once
    [where w = new_world and ref = "RefObject None" and c = new_instrumentation
       and current = None, THEN conjunct2, THEN conjunct1]
  have "\<not> sentry_rn_v5_registered new_world \<and> resolve_ref (RefObject None) = Inr None \<longrightarrow>
      registerNavigationContainer (RefObject None) None new_instrumentation new_world
        = Inr (new_instrumentation\<lparr>navigationContainer := None\<rparr>,
               new_world\<lparr>trace := trace new_world @ [Logged LevelWarn InvalidContainerRef]\<rparr>)" .
  with unset no_container
  have "registerNavigationContainer (RefObject None) None new_instrumentation new_world
        = Inr (new_instrumentation\<lparr>navigationContainer := None\<rparr>,
               new_world\<lparr>trace := trace new_world @ [Logged LevelWarn InvalidContainerRef]\<rparr>)"
    by simp
  moreover have "new_instrumentation\<lparr>navigationContainer := None\<rparr> = new_instrumentation"
    and "trace new_world = []"
    by (simp_all add: new_instrumentation_def new_world_def)
  ultimately
  have warned: "registerNavigationContainer (RefObject None) None new_instrumentation new_world
       = Inr (new_instrumentation,
              new_world\<lparr>trace := [Logged LevelWarn InvalidContainerRef]\<rparr>)"
    by simp
  from registration_happens_once
    [where w = new_world and ref = "RefObject (Some 5)" and c = new_instrumentation
       and current = None and k = 5, THEN conjunct2, THEN conjunct2, THEN conjunct1]
  have "\<not> sentry_rn_v5_registered new_world \<and> resolve_ref (RefObject (Some 5)) = Inr (Some 5) \<longrightarrow>
      (\<exists>c' w'. registerNavigationContainer (RefObject (Some 5)) None new_instrumentation new_world
           = Inr (c', w')
         \<and> navigationContainer c' = Some 5
         \<and> listeners w'
             = listeners new_world
               @ [(5, ''__unsafe_action__'', OnDispatch), (5, ''state'', OnStateChange)]
         \<and> sentry_rn_v5_registered w')" .
  with unset container
  obtain c' w' where
    first: "registerNavigationContainer (RefObject (Some 5)) None new_instrumentation new_world
       = Inr (c', w')"
    and attached: "listeners w'
       = listeners new_world @ [(5, ''__unsafe_action__'', OnDispatch), (5, ''state'', OnStateChange)]"
    and set: "sentry_rn_v5_registered w'"
    by blast
  from registration_happens_once
    [where w = w' and ref = "Container 6" and c = c' and current = None]
  have "sentry_rn_v5_registered w' \<longrightarrow> registerNavigationContainer (Container 6) None c' w'
       = Inr (c', w'\<lparr>trace := trace w' @ [Logged LevelLog AlreadyRegistered]\<rparr>)"
    by (rule conjunct1)
  with set have again: "registerNavigationContainer (Container 6) None c' w'
       = Inr (c', w'\<lparr>trace := trace w' @ [Logged LevelLog AlreadyRegistered]\<rparr>)"
    by (rule rev_mp)
  from attached have attached': "listeners w'
       = [(5, ''__unsafe_action__'', OnDispatch), (5, ''state'', OnStateChange)]"
    by (simp add: new_world_def)
  from first attached' set again
  have "\<exists>c' w'. registerNavigationContainer (RefObject (Some 5)) None new_instrumentation new_world
         = Inr (c', w')
       \<and> listeners w' = [(5, ''__unsafe_action__'', OnDispatch), (5, ''state'', OnStateChange)]
       \<and> sentry_rn_v5_registered w'
       \<and> registerNavigationContainer (Container 6) None c' w'
           = Inr (c', w'\<lparr>trace := trace w' @ [Logged LevelLog AlreadyRegistered]\<rparr>)"
    by (intro exI conjI)
  with unset no_container warned container show ?thesis
    by (intro conjI)
qed

text \<open>
  C9, evaluated on the code. With the flag unset, a ref that is no object (\<^verbatim>\<open>null\<close>,
  \<^verbatim>\<open>undefined\<close>, a primitive) resolves to no container, yet the call does not warn and
  return: the operator \<^verbatim>\<open>in\<close> of line 101 throws a TypeError before the warning of lines
  132 to 135 is reached. That warning is reached only for a ref object whose \<^verbatim>\<open>current\<close>
  holds nothing, as the second half shows. With the flag set the same argument is never
  inspected and the call only logs.
\<close>

theorem registering_a_non_object_ref_throws:
  "\<not> sentry_rn_v5_registered new_world
   \<and> resolve_ref NotAnObject = Inl TypeError
   \<and> registerNavigationContainer NotAnObject None new_instrumentation new_world = Inl TypeError
   \<and> registerNavigationContainer NotAnObject None ready_instrumentation
         (snd (onDispatch ready_instrumentation new_world)) = Inl TypeError
   \<and> registerNavigationContainer (RefObject None) None new_instrumentation new_world
       = Inr (new_instrumentation, new_world\<lparr>trace := [Logged LevelWarn InvalidContainerRef]\<rparr>)
   \<and> registerNavigationContainer NotAnObject None new_instrumentation
         (new_world\<lparr>sentry_rn_v5_registered := True\<rparr>)
       = Inr (new_instrumentation,
              new_world\<lparr>sentry_rn_v5_registered := True,
                        trace := [Logged LevelLog AlreadyRegistered]\<rparr>)"
  by (simp add: registerNavigationContainer_def resolve_ref_def logger_def onDispatch_def
      onRouteWillChange_def setTimeout_def new_world_def new_instrumentation_def
      ready_instrumentation_def)

subsection \<open>The route-key ledger\<close>

lemma pushRecentRouteKey_drop:
  "pushRecentRouteKey k l = drop (Suc (length l) - 200) (l @ [k])"
  by (simp add: pushRecentRouteKey_def Let_def maxRecentRouteLen_def)

lemma length_pushRecentRouteKey: "length (pushRecentRouteKey k l) \<le> 200"
  by (simp add: pushRecentRouteKey_def Let_def maxRecentRouteLen_def)

lemma recordRouteKeys_drop:
  "length l \<le> 200 \<Longrightarrow>
   recordRouteKeys ks l = drop (length l + length ks - 200) (l @ ks)"
proof (induction ks arbitrary: l)
  case Nil
  then show ?case by simp
next
  case (Cons k ks)
  define d where "d = Suc (length l) - 200"
  have p: "pushRecentRouteKey k l = drop d (l @ [k])"
    by (simp only: pushRecentRouteKey_drop d_def)
  have d_le: "d \<le> length (l @ [k])"
    by (simp add: d_def)
  have len: "length (pushRecentRouteKey k l) = Suc (length l) - d"
    by (simp add: p)
  have "drop d ((l @ [k]) @ ks) = drop d (l @ [k]) @ drop (d - length (l @ [k])) ks"
    by (rule drop_append)
  moreover have "d - length (l @ [k]) = 0"
    using d_le by simp
  ultimately have app: "pushRecentRouteKey k l @ ks = drop d (l @ k # ks)"
    by (simp add: p)
  have sum: "Suc (length l) - d + length ks - 200 + d = length l + length (k # ks) - 200"
    using Cons.prems by (simp add: d_def)
  have "recordRouteKeys (k # ks) l = recordRouteKeys ks (pushRecentRouteKey k l)"
    by simp
  also have "\<dots> =
      drop (length (pushRecentRouteKey k l) + length ks - 200) (pushRecentRouteKey k l @ ks)"
    by (rule Cons.IH) (rule length_pushRecentRouteKey)
  also have "\<dots> = drop (Suc (length l) - d + length ks - 200) (drop d (l @ k # ks))"
    by (simp only: len app)
  also have "\<dots> = drop (Suc (length l) - d + length ks - 200 + d) (l @ k # ks)"
    by (simp only: drop_drop)
  also have "\<dots> = drop (length l + length (k # ks) - 200) (l @ k # ks)"
    by (simp only: sum)
  finally show ?case .
qed

lemma decorate_keeps_pending:
  "latestTransaction (fst (decorate t r prev c w)) = latestTransaction c
   \<and> length (transactions (snd (decorate t r prev c w))) = length (transactions w)"
  by (simp add: decorate_def call_beforeNavigate_def Let_def split_def logger_def
      updateWithContext_def clearTimeout_def split: option.split)

lemma onStateChange_keeps_pending:
  "latestTransaction (fst (onStateChange current c w)) = latestTransaction c
   \<and> length (transactions (snd (onStateChange current c w))) = length (transactions w)"
  by (simp add: onStateChange_def Let_def split_def logger_def decorate_keeps_pending
      split: option.split)

lemma step_keeps_pending_valid: "pending_valid s \<Longrightarrow> pending_valid (step e s)"
proof (cases s)
  case (Pair c w)
  assume "pending_valid s"
  with Pair show ?thesis
    by (cases e)
      (simp_all add: pending_valid_def onDispatch_fields onStateChange_keeps_pending
        timerFires_def discardLatestTransaction_def split: option.splits)
qed

lemma run_keeps_pending_valid: "pending_valid s \<Longrightarrow> pending_valid (run es s)"
  by (induction es arbitrary: s) (simp_all add: step_keeps_pending_valid)

lemma new_pending_valid: "pending_valid (new_instrumentation, new_world)"
  by (simp add: pending_valid_def new_instrumentation_def)

lemma onStateChange_ledger:
  "recentRouteKeys (fst (onStateChange current c w)) = recentRouteKeys c
   \<or> (\<exists>k. recentRouteKeys (fst (onStateChange current c w))
          = pushRecentRouteKey k (recentRouteKeys c))"
  by (auto simp add: onStateChange_def Let_def split_def decorate_keeps_ledger
      split: option.split)

lemma step_keeps_ledger_bounded:
  "length (recentRouteKeys (fst s)) \<le> 200 \<Longrightarrow> length (recentRouteKeys (fst (step e s))) \<le> 200"
proof (cases s)
  case (Pair c w)
  assume bounded: "length (recentRouteKeys (fst s)) \<le> 200"
  show ?thesis
  proof (cases e)
    case Dispatch
    with Pair bounded show ?thesis
      by (simp add: onDispatch_def onRouteWillChange_def setTimeout_def)
  next
    case (StateChange current)
    with Pair bounded onStateChange_ledger [of current c w] show ?thesis
      by (auto simp add: length_pushRecentRouteKey)
  next
    case (TimerFires h)
    with Pair bounded show ?thesis
      by (simp add: timerFires_def discardLatestTransaction_def split: option.split)
  qed
qed

lemma run_keeps_ledger_bounded:
  "length (recentRouteKeys (fst s)) \<le> 200 \<Longrightarrow> length (recentRouteKeys (fst (run es s))) \<le> 200"
  by (induction es arbitrary: s) (simp_all add: step_keeps_ledger_bounded)

text \<open>
  C7. Recording more than 200 keys in an empty ledger leaves exactly the last 200 of them,
  in the order they were recorded, and \<^verbatim>\<open>includes\<close> answers true exactly for those.
  Every single \<^verbatim>\<open>_pushRecentRouteKey\<close> appends at the back and drops from the front at
  once, so the ledger never holds more than 200 keys: after one push, after any number of
  pushes, and after any sequence of events on a new instance.
\<close>

theorem ledger_keeps_last_200:
  "(200 < length ks \<longrightarrow>
      length (recordRouteKeys ks []) = 200
      \<and> recordRouteKeys ks [] = drop (length ks - 200) ks
      \<and> (\<forall>k. k \<in> set (recordRouteKeys ks []) \<longleftrightarrow> k \<in> set (drop (length ks - 200) ks)))
   \<and> pushRecentRouteKey k l = drop (Suc (length l) - 200) (l @ [k])
   \<and> length (pushRecentRouteKey k l) \<le> 200
   \<and> length (recordRouteKeys ks []) \<le> 200
   \<and> length (recentRouteKeys (fst (run es (new_instrumentation, w)))) \<le> 200
   \<and> maxRecentRouteLen = 200"
proof -
  have eq: "recordRouteKeys ks [] = drop (length ks - 200) ks"
    using recordRouteKeys_drop [of "[]" ks] by simp
  have long: "200 < length ks \<longrightarrow>
      length (recordRouteKeys ks []) = 200
      \<and> recordRouteKeys ks [] = drop (length ks - 200) ks
      \<and> (\<forall>k. k \<in> set (recordRouteKeys ks []) \<longleftrightarrow> k \<in> set (drop (length ks - 200) ks))"
    by (simp add: eq)
  have bound: "length (recordRouteKeys ks []) \<le> 200"
    by (simp add: eq)
  have cap: "maxRecentRouteLen = 200"
    by (simp add: maxRecentRouteLen_def)
  have events: "length (recentRouteKeys (fst (run es (new_instrumentation, w)))) \<le> 200"
    by (rule run_keeps_ledger_bounded) (simp add: new_instrumentation_def)
  from long pushRecentRouteKey_drop [of k l] length_pushRecentRouteKey [of k l] bound events cap
  show ?thesis by (intro conjI)
qed

theorem ledger_keeps_last_200_witness:
  "200 < length (map (\<lambda>n. replicate n CHR ''k'') [0..<203])
   \<and> length (recordRouteKeys (map (\<lambda>n. replicate n CHR ''k'') [0..<203]) []) = 200
   \<and> recordRouteKeys (map (\<lambda>n. replicate n CHR ''k'') [0..<203]) []
       = drop 3 (map (\<lambda>n. replicate n CHR ''k'') [0..<203])
   \<and> ''kk'' \<notin> set (recordRouteKeys (map (\<lambda>n. replicate n CHR ''k'') [0..<203]) [])"
proof -
  let ?ks = "map (\<lambda>n. replicate n CHR ''k'') [0..<203]"
  have len: "200 < length ?ks"
    by simp
  from ledger_keeps_last_200 [of ?ks] len
  have size: "length (recordRouteKeys ?ks []) = 200"
    and last: "recordRouteKeys ?ks [] = drop (length ?ks - 200) ?ks"
    by blast+
  have "drop (length ?ks - 200) ?ks = drop 3 ?ks"
    by simp
  with last have last3: "recordRouteKeys ?ks [] = drop 3 ?ks"
    by (rule trans)
  have kk: "''kk'' = replicate 2 CHR ''k''"
    by (simp add: numeral_2_eq_2)
  have "''kk'' \<notin> set (drop 3 ?ks)"
    by (auto simp add: kk drop_map)
  then have unseen: "''kk'' \<notin> set (recordRouteKeys ?ks [])"
    unfolding last3 .
  from len size last3 unseen show ?thesis
    by (intro conjI)
qed

end
